theory Spec2Isabelle
  imports Complex_Main
begin

section \<open>Data model of barChart.ts\<close>

text \<open>
  A JavaScript \<^verbatim>\<open>number\<close> is modelled as a \<^typ>\<open>real\<close>. Where the rounding of IEEE
  doubles decides what the program computes (the band scale, and the running total of
  the loop in its second form \<open>precalculate_double\<close>) every arithmetic operation is
  followed by the rounding to the nearest double; elsewhere the arithmetic is exact. A
  value that the JavaScript leaves \<^verbatim>\<open>undefined\<close> or \<^verbatim>\<open>NaN\<close> is \<^term>\<open>None\<close> of an option
  type.
  The fields \<^verbatim>\<open>value\<close>, \<^verbatim>\<open>end\<close> and \<^verbatim>\<open>class\<close> of the source carry the suffix
  \<open>_dp\<close>, since the bare words are reserved.
\<close>

record BarChartDataPoint =
  value_dp :: real
  category :: string
  start :: real
  end_dp :: real
  class_dp :: string

record BarChartViewModel =
  dataPoints :: "BarChartDataPoint list"
  dataMax :: "real option"
  dataMin :: real

record Margins =
  top_margin :: real
  right_margin :: real
  bottom_margin :: real
  left_margin :: real

record ConfigT =
  xScalePadding :: real
  solidOpacity :: real
  transparentOpacity :: real
  margins :: Margins
  xAxisFontMultiplier :: real

text \<open>\<^verbatim>\<open>static Config\<close> of class BarChart.\<close>

definition Config :: ConfigT where
  "Config =
     \<lparr> xScalePadding = 1 / 10,
       solidOpacity = 1,
       transparentOpacity = 4 / 10,
       margins = \<lparr> top_margin = 10, right_margin = 0, bottom_margin = 25, left_margin = 45 \<rparr>,
       xAxisFontMultiplier = 4 / 100 \<rparr>"

text \<open>The literal \<^verbatim>\<open>testData\<close> array that \<^verbatim>\<open>update\<close> builds on every call.\<close>

definition testData :: "BarChartDataPoint list" where
  "testData =
     [ \<lparr> value_dp = 100, category = ''Total'', start = 0, end_dp = 0, class_dp = '''' \<rparr>,
       \<lparr> value_dp = 60, category = ''effect1'', start = 0, end_dp = 0, class_dp = '''' \<rparr>,
       \<lparr> value_dp = - 20, category = ''effect2'', start = 0, end_dp = 0, class_dp = '''' \<rparr>,
       \<lparr> value_dp = - 10, category = ''d'', start = 0, end_dp = 0, class_dp = '''' \<rparr>,
       \<lparr> value_dp = 30, category = ''e'', start = 0, end_dp = 0, class_dp = '''' \<rparr>,
       \<lparr> value_dp = 160, category = ''Total G'', start = 0, end_dp = 0, class_dp = '''' \<rparr> ]"

section \<open>The loop that pre-calculates start and end of each bar\<close>

text \<open>
  One iteration of the \<^verbatim>\<open>for\<close> loop of \<^verbatim>\<open>update\<close> (lines 184 to 193), at index \<open>i\<close>
  with the running total \<open>cumulative\<close>: the four assignments to element \<open>i\<close> in the
  order of the source, then the overwrite when \<open>i\<close> is the last index. It returns the
  new running total and the updated array.
\<close>

definition loop_body ::
  "nat \<Rightarrow> real \<Rightarrow> BarChartDataPoint list \<Rightarrow> real \<times> BarChartDataPoint list" where
  "loop_body i cumulative dps =
     (let dps1 = dps[i := (dps ! i)\<lparr>start := cumulative\<rparr>];
          cumulative1 = cumulative + value_dp (dps1 ! i);
          dps2 = dps1[i := (dps1 ! i)\<lparr>end_dp := cumulative1\<rparr>];
          dps3 = dps2[i := (dps2 ! i)\<lparr>class_dp :=
                   (if value_dp (dps2 ! i) \<ge> 0 then ''positive'' else ''negative'')\<rparr>];
          dps4 = (if i = length dps3 - 1
                  then dps3[i := (dps3 ! i)\<lparr>start := 0, end_dp := value_dp (dps3 ! i)\<rparr>]
                  else dps3)
      in (cumulative1, dps4))"

text \<open>
  The loop itself: \<^verbatim>\<open>for (var i = 0; i < viewModel.dataPoints.length; i++)\<close>, started by
  \<open>precalculate 0 0\<close> (\<^verbatim>\<open>var cumulative = 0\<close>).
\<close>

function precalculate ::
  "nat \<Rightarrow> real \<Rightarrow> BarChartDataPoint list \<Rightarrow> BarChartDataPoint list" where
  "precalculate i cumulative dps =
     (if i < length dps
      then precalculate (i + 1) (fst (loop_body i cumulative dps)) (snd (loop_body i cumulative dps))
      else dps)"
  by pat_completeness auto
termination
  by (relation "measure (\<lambda>(i, c, dps). length dps - i)") (auto simp: loop_body_def Let_def split: prod.split)

declare precalculate.simps [simp del]

section \<open>Functions of JavaScript and of the d3 library that update calls\<close>

text \<open>
  \<^verbatim>\<open>Math.floor\<close> and \<^verbatim>\<open>Math.round\<close> (which rounds a half towards plus infinity);
  \<^verbatim>\<open>Math.abs\<close> and \<^verbatim>\<open>Math.max\<close> are \<^const>\<open>abs\<close> and \<^const>\<open>max\<close>.
\<close>

definition Math_floor :: "real \<Rightarrow> real" where
  "Math_floor x = of_int \<lfloor>x\<rfloor>"

definition Math_round :: "real \<Rightarrow> real" where
  "Math_round x = of_int \<lfloor>x + 1 / 2\<rfloor>"

text \<open>
  The arithmetic of IEEE 754 doubles: the exact result of an operation, rounded to the
  nearest number with 53 significant bits, a tie going to the even significand. The
  model covers the normal range (magnitudes from \<open>2 ^ -1022\<close> up to \<open>2 ^ 1024\<close>); it has
  no infinities, and a division by zero, which JavaScript answers with an infinity or
  NaN, has the value 0 here.
\<close>

definition pow2 :: "int \<Rightarrow> real" where
  "pow2 e = (if 0 \<le> e then 2 ^ nat e else 1 / 2 ^ nat (- e))"

definition round_half_even :: "real \<Rightarrow> int" where
  "round_half_even m =
     (let f = \<lfloor>m\<rfloor>; r = m - of_int f
      in if r < 1 / 2 then f else if 1 / 2 < r then f + 1 else if even f then f else f + 1)"

definition round_to_double :: "real \<Rightarrow> real" where
  "round_to_double x =
     (if x = 0 then 0
      else (let e = \<lfloor>log 2 \<bar>x\<bar>\<rfloor>; ulp = pow2 (e - 52)
            in ulp * of_int (round_half_even (x / ulp))))"

definition double_add :: "real \<Rightarrow> real \<Rightarrow> real" where
  "double_add x y = round_to_double (x + y)"

definition double_sub :: "real \<Rightarrow> real \<Rightarrow> real" where
  "double_sub x y = round_to_double (x - y)"

definition double_mul :: "real \<Rightarrow> real \<Rightarrow> real" where
  "double_mul x y = round_to_double (x * y)"

definition double_div :: "real \<Rightarrow> real \<Rightarrow> real" where
  "double_div x y = round_to_double (x / y)"

text \<open>
  d3 (version 3, the one with \<^verbatim>\<open>d3.scale.linear\<close> and \<^verbatim>\<open>rangeRoundBands\<close>) is a third-party
  library and no part of barChart.ts. The functions below follow the library's published
  behaviour, on numbers that are neither null nor NaN.

  \<^verbatim>\<open>d3.max(array)\<close> and \<^verbatim>\<open>d3.min(array)\<close>: the first element, then every later element
  that is greater (smaller) replaces it; \<^verbatim>\<open>undefined\<close> for the empty array.
\<close>

fun d3_max :: "real list \<Rightarrow> real option" where
  "d3_max [] = None"
| "d3_max (x # xs) = Some (foldl (\<lambda>a b. if b > a then b else a) x xs)"

fun d3_min :: "real list \<Rightarrow> real option" where
  "d3_min [] = None"
| "d3_min (x # xs) = Some (foldl (\<lambda>a b. if b < a then b else a) x xs)"

text \<open>
  \<^verbatim>\<open>d3.scale.linear().domain([d0, d1]).range([r0, r1])\<close>, without clamping: the value is
  un-interpolated over the domain (\<^verbatim>\<open>(x - a) / b\<close> with \<^verbatim>\<open>b = (b - a) || 1 / b\<close>, so a
  domain of width zero maps everything to 0) and interpolated over the range
  (\<^verbatim>\<open>a * (1 - t) + b * t\<close>).
\<close>

definition d3_uninterpolateNumber :: "real \<Rightarrow> real \<Rightarrow> real \<Rightarrow> real" where
  "d3_uninterpolateNumber a b x = (if b - a = 0 then 0 else (x - a) / (b - a))"

definition d3_interpolateNumber :: "real \<Rightarrow> real \<Rightarrow> real \<Rightarrow> real" where
  "d3_interpolateNumber a b t = a * (1 - t) + b * t"

definition d3_scale_linear :: "real \<times> real \<Rightarrow> real \<times> real \<Rightarrow> real \<Rightarrow> real" where
  "d3_scale_linear dmn rng x =
     d3_interpolateNumber (fst rng) (snd rng) (d3_uninterpolateNumber (fst dmn) (snd dmn) x)"

text \<open>
  \<^verbatim>\<open>d3.scale.ordinal()\<close>. Its \<^verbatim>\<open>domain(x)\<close> keeps the first occurrence of every value,
  in order, and indexes them from 1.
\<close>

record OrdinalScale =
  domain_os :: "string list"
  range_os :: "real list"
  rangeBand_os :: real

definition ordinal_domain :: "string list \<Rightarrow> string list" where
  "ordinal_domain xs = foldl (\<lambda>d xi. if xi \<in> set d then d else d @ [xi]) [] xs"

fun index_get :: "string list \<Rightarrow> string \<Rightarrow> nat option" where
  "index_get [] x = None"
| "index_get (d # ds) x = (if d = x then Some 1 else map_option Suc (index_get ds x))"

text \<open>
  \<^verbatim>\<open>steps(start, step)\<close>: one value \<^verbatim>\<open>start + step * i\<close> for each index of the domain,
  in double arithmetic.
\<close>

definition steps :: "nat \<Rightarrow> real \<Rightarrow> real \<Rightarrow> real list" where
  "steps n start_v step = map (\<lambda>i. double_add start_v (double_mul step (real i))) [0..<n]"

text \<open>
  \<^verbatim>\<open>rangeRoundBands(x, padding)\<close>, called with two arguments, so that the outer padding is
  the padding. The arguments are numbers of the program, that is doubles: the callers
  in this theory compute them exactly, so the two ends of \<open>x\<close> and the padding are
  rounded on entry (the literal \<^verbatim>\<open>0.1\<close> of the configuration is the double nearest to
  one tenth). Every operation below is the library's, in double arithmetic:
  \<^verbatim>\<open>step = Math.floor((stop - start) / (domain.length - padding + 2 * outerPadding))\<close>,
  \<^verbatim>\<open>range = steps(start + Math.round((stop - start - (domain.length - padding) * step) / 2), step)\<close>
  and \<^verbatim>\<open>rangeBand = Math.round(step * (1 - padding))\<close>.
\<close>

definition rangeRoundBands :: "string list \<Rightarrow> real \<times> real \<Rightarrow> real \<Rightarrow> OrdinalScale" where
  "rangeRoundBands dmn x padding_arg =
     (let x0 = round_to_double (fst x);
          x1 = round_to_double (snd x);
          padding = round_to_double padding_arg;
          outerPadding = padding;
          reverse = x1 < x0;
          start_v = (if reverse then x1 else x0);
          stop = (if reverse then x0 else x1);
          n = real (length dmn);
          step = Math_floor (double_div (double_sub stop start_v)
                   (double_add (double_sub n padding) (double_mul 2 outerPadding)));
          rng0 = steps (length dmn)
                   (double_add start_v (Math_round (double_div
                      (double_sub (double_sub stop start_v) (double_mul (double_sub n padding) step))
                      2)))
                   step;
          rng = (if reverse then rev rng0 else rng0)
      in \<lparr> domain_os = dmn, range_os = rng,
           rangeBand_os = Math_round (double_mul step (double_sub 1 padding)) \<rparr>)"

text \<open>
  Applying the scale, \<^verbatim>\<open>range[(index.get(x) - 1) % range.length]\<close>; a value outside the
  domain of a banded scale gives \<^verbatim>\<open>undefined\<close>.
\<close>

definition ordinal_scale :: "OrdinalScale \<Rightarrow> string \<Rightarrow> real option" where
  "ordinal_scale s x =
     (case index_get (domain_os s) x of
        None \<Rightarrow> None
      | Some k \<Rightarrow>
          (if range_os s = [] then None
           else Some (range_os s ! ((k - 1) mod length (range_os s)))))"

section \<open>BarChart.update\<close>

text \<open>
  The options of an update: the viewport and the data views that the host supplies.
  What an update leaves on the drawing surface: the size of the svg element, the font
  size and the translation of both axes, and one rectangle per data point with the
  attributes \<^verbatim>\<open>width\<close>, \<^verbatim>\<open>height\<close>, \<^verbatim>\<open>y\<close>, \<^verbatim>\<open>x\<close> and \<^verbatim>\<open>transform\<close> (a translation).
  The record also exposes the locals \<^verbatim>\<open>viewModel\<close>, \<^verbatim>\<open>height\<close> and \<^verbatim>\<open>width\<close> as they
  are at the end of the call.
\<close>

record IViewport =
  height :: real
  width :: real

record VisualUpdateOptions =
  viewport :: IViewport
  dataViews :: "(string \<times> real) list list"

record Rect =
  rect_width :: real
  rect_height :: "real option"
  rect_y :: "real option"
  rect_x :: "real option"
  rect_transform :: "real \<times> real"

record Rendered =
  svg_attr :: "real \<times> real"
  xAxis_font_size :: "real option"
  yAxis_font_size :: "real option"
  xAxis_transform :: "real \<times> real"
  yAxis_transform :: "real \<times> real"
  viewModel :: BarChartViewModel
  plotHeight :: real
  plotWidth :: real
  bars :: "Rect list"

text \<open>
  The body of \<^verbatim>\<open>update\<close> from line 133 on, with the configuration and the array of data
  points as parameters. The view model shares the array with \<open>data\<close>, so the loop's
  writes are visible through \<open>viewModel.dataPoints\<close>; \<open>dataMax\<close> and both scales are
  computed before the loop, from the untouched values and categories.
\<close>

definition update_with :: "ConfigT \<Rightarrow> BarChartDataPoint list \<Rightarrow> VisualUpdateOptions \<Rightarrow> Rendered" where
  "update_with cfg data options =
     (let vm = \<lparr> dataPoints = data, dataMax = d3_max (map value_dp data), dataMin = 0 \<rparr>;
          width0 = width (viewport options);
          height0 = height (viewport options);
          mg = margins cfg;
          height1 = height0 - (bottom_margin mg + top_margin mg);
          width1 = width0 - left_margin mg;
          font = map_option (\<lambda>m. m * xAxisFontMultiplier cfg) (d3_min [height1, width1]);
          yScale = (\<lambda>v. map_option (\<lambda>m. d3_scale_linear (dataMin vm, m) (height1, 0) v) (dataMax vm));
          xScale = rangeRoundBands (ordinal_domain (map category (dataPoints vm))) (0, width1)
                     (xScalePadding cfg);
          vm1 = vm\<lparr>dataPoints := precalculate 0 0 (dataPoints vm)\<rparr>;
          rects = map (\<lambda>d.
                    \<lparr> rect_width = rangeBand_os xScale,
                      rect_height = map_option (\<lambda>y. height1 - y) (yScale (\<bar>start d - end_dp d\<bar>)),
                      rect_y = yScale (max (start d) (end_dp d)),
                      rect_x = ordinal_scale xScale (category d),
                      rect_transform = (left_margin mg, top_margin mg) \<rparr>) (dataPoints vm1)
      in \<lparr> svg_attr = (width0, height0),
           xAxis_font_size = font,
           yAxis_font_size = font,
           xAxis_transform = (left_margin mg, height1 + top_margin mg),
           yAxis_transform = (51, top_margin mg),
           viewModel = vm1,
           plotHeight = height1,
           plotWidth = width1,
           bars = rects \<rparr>)"

text \<open>
  \<^verbatim>\<open>update(options)\<close> itself: the data points are the literal \<open>testData\<close> and the
  configuration is the static \<open>Config\<close>; \<open>options.dataViews\<close> is never read.
\<close>

definition update :: "VisualUpdateOptions \<Rightarrow> Rendered" where
  "update options = update_with Config testData options"

section \<open>The loop in double arithmetic\<close>

text \<open>
  The loop of lines 181 to 194 once more, with the one arithmetic operation it has,
  \<^verbatim>\<open>cumulative += viewModel.dataPoints[i].value\<close>, rounded to the nearest double as
  JavaScript computes it. Nothing else differs from \<open>loop_body\<close> and \<open>precalculate\<close>, and
  the two loops agree wherever the additions are exact.
\<close>

definition loop_body_double ::
  "nat \<Rightarrow> real \<Rightarrow> BarChartDataPoint list \<Rightarrow> real \<times> BarChartDataPoint list" where
  "loop_body_double i cumulative dps =
     (let dps1 = dps[i := (dps ! i)\<lparr>start := cumulative\<rparr>];
          cumulative1 = double_add cumulative (value_dp (dps1 ! i));
          dps2 = dps1[i := (dps1 ! i)\<lparr>end_dp := cumulative1\<rparr>];
          dps3 = dps2[i := (dps2 ! i)\<lparr>class_dp :=
                   (if value_dp (dps2 ! i) \<ge> 0 then ''positive'' else ''negative'')\<rparr>];
          dps4 = (if i = length dps3 - 1
                  then dps3[i := (dps3 ! i)\<lparr>start := 0, end_dp := value_dp (dps3 ! i)\<rparr>]
                  else dps3)
      in (cumulative1, dps4))"

function precalculate_double ::
  "nat \<Rightarrow> real \<Rightarrow> BarChartDataPoint list \<Rightarrow> BarChartDataPoint list" where
  "precalculate_double i cumulative dps =
     (if i < length dps
      then precalculate_double (i + 1) (fst (loop_body_double i cumulative dps))
             (snd (loop_body_double i cumulative dps))
      else dps)"
  by pat_completeness auto
termination
  by (relation "measure (\<lambda>(i, c, dps). length dps - i)")
     (auto simp: loop_body_double_def Let_def split: prod.split)

declare precalculate_double.simps [simp del]

text \<open>
  The additions of the loop are exact on a sequence of values: starting from the running
  total \<open>c\<close>, every addition but the one at the last point (whose result the loop
  overwrites) returns the exact sum.
\<close>

fun sums_exact :: "real \<Rightarrow> real list \<Rightarrow> bool" where
  "sums_exact c [] = True"
| "sums_exact c [v] = True"
| "sums_exact c (v # w # vs) = (double_add c v = c + v \<and> sums_exact (c + v) (w # vs))"

section \<open>Sample inputs\<close>

text \<open>
  Inputs on which the update is evaluated below: a viewport of 400 by 300 without and
  with data views from the host, a viewport of 10 by 10 (smaller than the margins), and
  a sequence of one data point.
\<close>

definition options_400_300 :: VisualUpdateOptions where
  "options_400_300 = \<lparr> viewport = \<lparr> height = 300, width = 400 \<rparr>, dataViews = [] \<rparr>"

definition options_with_data :: VisualUpdateOptions where
  "options_with_data =
     \<lparr> viewport = \<lparr> height = 300, width = 400 \<rparr>, dataViews = [[(''A'', 1), (''B'', 2)]] \<rparr>"

definition options_10_10 :: VisualUpdateOptions where
  "options_10_10 = \<lparr> viewport = \<lparr> height = 10, width = 10 \<rparr>, dataViews = [] \<rparr>"

definition single_point :: "BarChartDataPoint list" where
  "single_point = [ \<lparr> value_dp = 50, category = ''X'', start = 0, end_dp = 0, class_dp = '''' \<rparr> ]"

text \<open>
  Three data points whose running total leaves the integers that doubles represent
  exactly: \<open>2 ^ 53\<close>, then 1, then 0.
\<close>

definition big_then_one :: "BarChartDataPoint list" where
  "big_then_one =
     [ \<lparr> value_dp = 9007199254740992, category = ''a'', start = 0, end_dp = 0, class_dp = '''' \<rparr>,
       \<lparr> value_dp = 1, category = ''b'', start = 0, end_dp = 0, class_dp = '''' \<rparr>,
       \<lparr> value_dp = 0, category = ''c'', start = 0, end_dp = 0, class_dp = '''' \<rparr> ]"

section \<open>What the loop computes\<close>

lemma loop_body_eq:
  assumes "i < length dps"
  shows "loop_body i c dps =
    (c + value_dp (dps ! i),
     dps[i := (if i = length dps - 1
               then (dps ! i)\<lparr>class_dp := (if value_dp (dps ! i) \<ge> 0 then ''positive'' else ''negative''),
                      start := 0, end_dp := value_dp (dps ! i)\<rparr>
               else (dps ! i)\<lparr>start := c, end_dp := c + value_dp (dps ! i),
                      class_dp := (if value_dp (dps ! i) \<ge> 0 then ''positive'' else ''negative'')\<rparr>)])"
  using assms by (simp add: loop_body_def Let_def)

lemma length_precalculate: "length (precalculate i c dps) = length dps"
proof (induction i c dps rule: precalculate.induct)
  case (1 i c dps)
  show ?case
  proof (cases "i < length dps")
    case True
    then have "length (precalculate i c dps) = length (snd (loop_body i c dps))"
      using "1.IH" by (subst precalculate.simps) simp
    then show ?thesis using True by (simp add: loop_body_eq)
  next
    case False
    then show ?thesis by (subst precalculate.simps) simp
  qed
qed

lemma precalculate_before: "j < i \<Longrightarrow> precalculate i c dps ! j = dps ! j"
proof (induction i c dps arbitrary: j rule: precalculate.induct)
  case (1 i c dps)
  show ?case
  proof (cases "i < length dps")
    case True
    have "precalculate i c dps ! j = snd (loop_body i c dps) ! j"
      using "1.IH" [OF True, of j] "1.prems" True by (subst precalculate.simps) simp
    then show ?thesis using True "1.prems" by (simp add: loop_body_eq)
  next
    case False
    then show ?thesis by (subst precalculate.simps) simp
  qed
qed

lemma precalculate_nth:
  "i \<le> j \<Longrightarrow> j < length dps \<Longrightarrow>
   precalculate i c dps ! j =
     (if j = length dps - 1
      then (dps ! j)\<lparr>class_dp := (if value_dp (dps ! j) \<ge> 0 then ''positive'' else ''negative''),
             start := 0, end_dp := value_dp (dps ! j)\<rparr>
      else (dps ! j)\<lparr>start := c + sum_list (map value_dp (take (j - i) (drop i dps))),
             end_dp := c + sum_list (map value_dp (take (j - i) (drop i dps))) + value_dp (dps ! j),
             class_dp := (if value_dp (dps ! j) \<ge> 0 then ''positive'' else ''negative'')\<rparr>)"
proof (induction i c dps arbitrary: j rule: precalculate.induct)
  case (1 i c dps)
  from "1.prems" have il: "i < length dps" by simp
  let ?c1 = "fst (loop_body i c dps)" and ?d1 = "snd (loop_body i c dps)"
  have unf: "precalculate i c dps = precalculate (i + 1) ?c1 ?d1"
    using il by (subst precalculate.simps) simp
  have len: "length ?d1 = length dps" using il by (simp add: loop_body_eq)
  show ?case
  proof (cases "j = i")
    case True
    have "precalculate i c dps ! j = ?d1 ! i"
      unfolding unf using True by (simp add: precalculate_before)
    then show ?thesis using True il by (simp add: loop_body_eq)
  next
    case False
    with "1.prems" have lt: "i + 1 \<le> j" by simp
    have jl: "j < length ?d1" using len "1.prems" by simp
    have nthj: "?d1 ! j = dps ! j" using il False by (simp add: loop_body_eq)
    have drp: "drop (i + 1) ?d1 = drop (i + 1) dps"
      using il by (simp add: loop_body_eq drop_update_cancel)
    have c1: "?c1 = c + value_dp (dps ! i)" using il by (simp add: loop_body_eq)
    have split: "take (j - i) (drop i dps) = dps ! i # take (j - (i + 1)) (drop (i + 1) dps)"
    proof -
      have "drop i dps = dps ! i # drop (Suc i) dps" using il by (simp add: Cons_nth_drop_Suc)
      moreover have "j - i = Suc (j - (i + 1))" using lt by simp
      ultimately show ?thesis by simp
    qed
    let ?S = "sum_list (map value_dp (take (j - (i + 1)) (drop (i + 1) dps)))"
    have sum: "sum_list (map value_dp (take (j - i) (drop i dps))) = value_dp (dps ! i) + ?S"
      by (simp only: split list.map sum_list.Cons)
    have "precalculate (i + 1) ?c1 ?d1 ! j =
      (if j = length dps - 1
       then (dps ! j)\<lparr>class_dp := (if value_dp (dps ! j) \<ge> 0 then ''positive'' else ''negative''),
             start := 0, end_dp := value_dp (dps ! j)\<rparr>
       else (dps ! j)\<lparr>start := (c + value_dp (dps ! i)) + ?S,
             end_dp := (c + value_dp (dps ! i)) + ?S + value_dp (dps ! j),
             class_dp := (if value_dp (dps ! j) \<ge> 0 then ''positive'' else ''negative'')\<rparr>)"
      using "1.IH" [OF il lt jl] unfolding len nthj drp c1 .
    then show ?thesis
      unfolding unf sum by (simp only: add.assoc)
  qed
qed

lemma category_precalculate:
  "i < length data \<Longrightarrow> category (precalculate 0 0 data ! i) = category (data ! i)"
  by (simp add: precalculate_nth)

section \<open>Facts about update and the library functions\<close>

lemma dataPoints_update_with:
  "dataPoints (viewModel (update_with cfg data options)) = precalculate 0 0 data"
  by (simp add: update_with_def Let_def)

lemma length_bars: "length (bars (update_with cfg data options)) = length data"
  by (simp add: update_with_def Let_def length_precalculate)

lemma d3_max_foldl_Max: "foldl (\<lambda>a b. if b > a then b else a) (x::real) xs = Max (set (x # xs))"
proof (induction xs arbitrary: x)
  case Nil
  show ?case by simp
next
  case (Cons y ys)
  have "Max (set (x # y # ys)) = Max (set (max x y # ys))"
    by (cases "ys = []") (simp_all add: max.assoc)
  moreover have "(if x < y then y else x) = max x y" by (simp add: max_def)
  ultimately show ?case using Cons.IH [of "max x y"] by simp
qed

lemma d3_max_Max: "d3_max xs = (if xs = [] then None else Some (Max (set xs)))"
proof (cases xs)
  case Nil
  then show ?thesis by simp
next
  case (Cons y ys)
  then show ?thesis by (simp add: d3_max_foldl_Max del: Max_insert set_simps foldl.simps)
qed

lemma foldl_ordinal_domain:
  "distinct (acc @ xs) \<Longrightarrow>
   foldl (\<lambda>d xi. if xi \<in> set d then d else d @ [xi]) acc xs = acc @ xs"
proof (induction xs arbitrary: acc)
  case Nil
  show ?case by simp
next
  case (Cons x xs)
  from Cons.prems have nin: "x \<notin> set acc" and d: "distinct ((acc @ [x]) @ xs)" by auto
  show ?case using Cons.IH [OF d] nin by simp
qed

lemma ordinal_domain_distinct: "distinct xs \<Longrightarrow> ordinal_domain xs = xs"
  using foldl_ordinal_domain [of "[]" xs] by (simp add: ordinal_domain_def)

lemma index_get_nth: "distinct xs \<Longrightarrow> i < length xs \<Longrightarrow> index_get xs (xs ! i) = Some (Suc i)"
proof (induction xs arbitrary: i)
  case Nil
  then show ?case by simp
next
  case (Cons x xs)
  show ?case
  proof (cases i)
    case 0
    then show ?thesis by simp
  next
    case (Suc k)
    with Cons.prems have "k < length xs" "xs ! k \<in> set xs" "x \<notin> set xs" "distinct xs" by auto
    then show ?thesis using Cons.IH [of k] Suc by auto
  qed
qed

lemma distinct_foldl_ordinal_domain:
  "distinct acc \<Longrightarrow> distinct (foldl (\<lambda>d xi. if xi \<in> set d then d else d @ [xi]) acc xs)"
  by (induction xs arbitrary: acc) simp_all

lemma distinct_ordinal_domain: "distinct (ordinal_domain xs)"
  by (simp add: ordinal_domain_def distinct_foldl_ordinal_domain)

lemma set_foldl_ordinal_domain:
  "set (foldl (\<lambda>d xi. if xi \<in> set d then d else d @ [xi]) acc xs) = set acc \<union> set xs"
  by (induction xs arbitrary: acc) auto

lemma set_ordinal_domain: "set (ordinal_domain xs) = set xs"
  by (simp add: ordinal_domain_def set_foldl_ordinal_domain)

lemma steps_nth: "i < n \<Longrightarrow> steps n a s ! i = double_add a (double_mul s (real i))"
  by (simp add: steps_def)

lemma length_steps: "length (steps n a s) = n"
  by (simp add: steps_def)

lemma Math_floor_nonneg: "0 \<le> x \<Longrightarrow> 0 \<le> Math_floor x"
  by (simp add: Math_floor_def)

lemma Math_round_nonneg: "0 \<le> x \<Longrightarrow> 0 \<le> Math_round x"
  by (simp add: Math_round_def)

section \<open>Facts about the rounding to doubles\<close>

lemma pow2_pos: "0 < pow2 e"
  by (simp add: pow2_def)

lemma pow2_powr: "pow2 e = 2 powr (of_int e)"
proof (cases "0 \<le> e")
  case True
  then have "2 powr (of_int e) = (2::real) powr (real (nat e))" by simp
  also have "\<dots> = 2 ^ nat e" by (simp add: powr_realpow)
  finally show ?thesis using True by (simp add: pow2_def)
next
  case False
  then have "(2::real) powr (of_int e) = 2 powr (- real (nat (- e)))" by simp
  also have "\<dots> = 1 / 2 powr (real (nat (- e)))" by (simp add: powr_minus divide_inverse)
  also have "\<dots> = 1 / 2 ^ nat (- e)" by (simp add: powr_realpow)
  finally show ?thesis using False by (simp add: pow2_def)
qed

lemma exponent_eqI:
  assumes "pow2 e \<le> \<bar>x\<bar>" and "\<bar>x\<bar> < pow2 (e + 1)"
  shows "\<lfloor>log 2 \<bar>x\<bar>\<rfloor> = e"
proof (rule floor_unique)
  have pos: "0 < \<bar>x\<bar>" using assms(1) pow2_pos [of e] by linarith
  show "of_int e \<le> log 2 \<bar>x\<bar>"
    using assms(1) pos by (simp add: le_log_iff pow2_powr)
  show "log 2 \<bar>x\<bar> < of_int e + 1"
    using assms(2) pos by (simp add: log_less_iff pow2_powr)
qed

lemma exponent_bounds:
  assumes "x \<noteq> 0"
  shows "pow2 \<lfloor>log 2 \<bar>x\<bar>\<rfloor> \<le> \<bar>x\<bar>" and "\<bar>x\<bar> < pow2 (\<lfloor>log 2 \<bar>x\<bar>\<rfloor> + 1)"
proof -
  have pos: "0 < \<bar>x\<bar>" using assms by simp
  have "2 powr (of_int \<lfloor>log 2 \<bar>x\<bar>\<rfloor>) \<le> \<bar>x\<bar>"
    using pos by (subst le_log_iff [symmetric]) simp_all
  then show "pow2 \<lfloor>log 2 \<bar>x\<bar>\<rfloor> \<le> \<bar>x\<bar>"
    by (simp only: pow2_powr)
  have "log 2 \<bar>x\<bar> < of_int (\<lfloor>log 2 \<bar>x\<bar>\<rfloor> + 1)" by linarith
  then show "\<bar>x\<bar> < pow2 (\<lfloor>log 2 \<bar>x\<bar>\<rfloor> + 1)"
    using pos by (simp only: pow2_powr log_less_iff [symmetric])
qed

lemma round_to_double_eqI:
  assumes "pow2 e \<le> \<bar>x\<bar>" and "\<bar>x\<bar> < pow2 (e + 1)"
    and "pow2 (e - 52) * of_int (round_half_even (x / pow2 (e - 52))) = y"
  shows "round_to_double x = y"
proof -
  have "x \<noteq> 0" using assms(1) pow2_pos [of e] by auto
  moreover have "\<lfloor>log 2 \<bar>x\<bar>\<rfloor> = e" using assms(1,2) by (rule exponent_eqI)
  ultimately show ?thesis using assms(3) by (simp add: round_to_double_def Let_def)
qed

lemma round_half_even_le: "m \<le> of_int M \<Longrightarrow> round_half_even m \<le> M"
proof -
  assume a: "m \<le> of_int M"
  have f: "\<lfloor>m\<rfloor> \<le> M" using a by (simp add: floor_le_iff)
  show ?thesis
  proof (cases "\<lfloor>m\<rfloor> = M")
    case True
    then have "m - of_int \<lfloor>m\<rfloor> \<le> 0" using a by simp
    then show ?thesis using True by (simp add: round_half_even_def Let_def)
  next
    case False
    with f have "\<lfloor>m\<rfloor> + 1 \<le> M" by simp
    then show ?thesis using f by (simp add: round_half_even_def Let_def)
  qed
qed

lemma round_half_even_ge: "of_int M \<le> m \<Longrightarrow> M \<le> round_half_even m"
proof -
  assume "of_int M \<le> m"
  then have "M \<le> \<lfloor>m\<rfloor>" by (simp add: le_floor_iff)
  then show ?thesis by (simp add: round_half_even_def Let_def)
qed

lemma round_half_even_of_int: "round_half_even (of_int M) = M"
  by (simp add: round_half_even_def Let_def)

lemma round_to_double_nonneg: "0 \<le> x \<Longrightarrow> 0 \<le> round_to_double x"
proof -
  assume x: "0 \<le> x"
  show ?thesis
  proof (cases "x = 0")
    case True
    then show ?thesis by (simp add: round_to_double_def)
  next
    case False
    let ?u = "pow2 (\<lfloor>log 2 \<bar>x\<bar>\<rfloor> - 52)"
    have "of_int 0 \<le> x / ?u" using x pow2_pos [of "\<lfloor>log 2 \<bar>x\<bar>\<rfloor> - 52"] by simp
    then have "0 \<le> round_half_even (x / ?u)" by (rule round_half_even_ge)
    then show ?thesis
      using False pow2_pos [of "\<lfloor>log 2 \<bar>x\<bar>\<rfloor> - 52"]
      by (simp add: round_to_double_def Let_def)
  qed
qed

lemma round_to_double_nonpos: "x \<le> 0 \<Longrightarrow> round_to_double x \<le> 0"
proof -
  assume x: "x \<le> 0"
  show ?thesis
  proof (cases "x = 0")
    case True
    then show ?thesis by (simp add: round_to_double_def)
  next
    case False
    let ?u = "pow2 (\<lfloor>log 2 \<bar>x\<bar>\<rfloor> - 52)"
    have "x / ?u \<le> of_int 0" using x pow2_pos [of "\<lfloor>log 2 \<bar>x\<bar>\<rfloor> - 52"]
      by (simp add: divide_nonpos_pos)
    then have "round_half_even (x / ?u) \<le> 0" by (rule round_half_even_le)
    then show ?thesis
      using False pow2_pos [of "\<lfloor>log 2 \<bar>x\<bar>\<rfloor> - 52"]
      by (simp add: round_to_double_def Let_def mult_le_0_iff)
  qed
qed

lemma pow2_nonpos: "e \<le> 0 \<Longrightarrow> pow2 e = 1 / 2 ^ nat (- e)"
  by (cases "e = 0") (simp_all add: pow2_def)

lemma exponent_le_52:
  assumes "x \<noteq> 0" and "\<bar>x\<bar> < 2 ^ 53"
  shows "\<lfloor>log 2 \<bar>x\<bar>\<rfloor> \<le> 52"
proof -
  have "pow2 \<lfloor>log 2 \<bar>x\<bar>\<rfloor> < pow2 53"
    using exponent_bounds(1) [OF assms(1)] assms(2) by (simp add: pow2_def)
  then have "2 powr (of_int \<lfloor>log 2 \<bar>x\<bar>\<rfloor>) < (2::real) powr (of_int 53)"
    by (simp only: pow2_powr)
  then have "real_of_int \<lfloor>log 2 \<bar>x\<bar>\<rfloor> < real_of_int 53"
    by (rule powr_less_cancel) simp
  then have "\<lfloor>log 2 \<bar>x\<bar>\<rfloor> < 53" by (simp only: of_int_less_iff)
  then show ?thesis by simp
qed

lemma round_to_double_le_int:
  assumes "x \<le> of_int k" and "\<bar>of_int k :: real\<bar> < 2 ^ 53" and "0 \<le> x"
  shows "round_to_double x \<le> of_int k"
proof (cases "x = 0")
  case True
  then show ?thesis using assms(1) by (simp add: round_to_double_def)
next
  case False
  let ?e = "\<lfloor>log 2 \<bar>x\<bar>\<rfloor>"
  let ?N = "nat (52 - ?e)"
  have "\<bar>x\<bar> < 2 ^ 53" using assms by linarith
  then have e: "?e - 52 \<le> 0" using exponent_le_52 [OF False] by simp
  then have u: "pow2 (?e - 52) = 1 / 2 ^ ?N" by (simp add: pow2_nonpos)
  have "x / pow2 (?e - 52) = x * 2 ^ ?N" by (simp add: u)
  also have "\<dots> \<le> of_int k * 2 ^ ?N" using assms(1) by simp
  also have "\<dots> = of_int (k * 2 ^ ?N)" by simp
  finally have "round_half_even (x / pow2 (?e - 52)) \<le> k * 2 ^ ?N"
    by (rule round_half_even_le)
  then have "real_of_int (round_half_even (x / pow2 (?e - 52))) \<le> of_int k * 2 ^ ?N"
    by (metis of_int_le_iff of_int_mult of_int_numeral of_int_power)
  then have "pow2 (?e - 52) * of_int (round_half_even (x / pow2 (?e - 52))) \<le> of_int k"
    by (simp add: u field_simps)
  then show ?thesis using False by (simp add: round_to_double_def Let_def)
qed

lemma round_to_double_of_int:
  assumes "\<bar>of_int k :: real\<bar> < 2 ^ 53"
  shows "round_to_double (of_int k) = of_int k"
proof (cases "k = 0")
  case True
  then show ?thesis by (simp add: round_to_double_def)
next
  case False
  let ?x = "of_int k :: real"
  let ?e = "\<lfloor>log 2 \<bar>?x\<bar>\<rfloor>"
  let ?N = "nat (52 - ?e)"
  have x0: "?x \<noteq> 0" using False by simp
  have e: "?e - 52 \<le> 0" using exponent_le_52 [OF x0 assms] by simp
  then have u: "pow2 (?e - 52) = 1 / 2 ^ ?N" by (simp add: pow2_nonpos)
  have "?x / pow2 (?e - 52) = of_int (k * 2 ^ ?N)" by (simp add: u)
  then have "round_half_even (?x / pow2 (?e - 52)) = k * 2 ^ ?N"
    by (simp only: round_half_even_of_int)
  then have "pow2 (?e - 52) * of_int (round_half_even (?x / pow2 (?e - 52))) = ?x"
    by (simp add: u)
  then show ?thesis using x0 by (simp add: round_to_double_def Let_def)
qed

lemma round_to_double_zero: "round_to_double 0 = 0"
  by (simp add: round_to_double_def)

lemma round_to_double_one: "round_to_double 1 = 1"
  using round_to_double_of_int [of 1] by simp

lemma round_to_double_numeral:
  "(numeral k :: real) < 2 ^ 53 \<Longrightarrow> round_to_double (numeral k) = numeral k"
  using round_to_double_of_int [of "numeral k"] by simp

lemma round_to_double_neg_numeral:
  "(numeral k :: real) < 2 ^ 53 \<Longrightarrow> round_to_double (- numeral k) = - numeral k"
  using round_to_double_of_int [of "- numeral k"] by simp

lemma double_add_nonneg: "0 \<le> x \<Longrightarrow> 0 \<le> y \<Longrightarrow> 0 \<le> double_add x y"
  unfolding double_add_def by (intro round_to_double_nonneg) simp

lemma double_sub_nonneg: "y \<le> x \<Longrightarrow> 0 \<le> double_sub x y"
  unfolding double_sub_def by (intro round_to_double_nonneg) simp

lemma double_mul_nonneg: "0 \<le> x \<Longrightarrow> 0 \<le> y \<Longrightarrow> 0 \<le> double_mul x y"
  unfolding double_mul_def by (intro round_to_double_nonneg mult_nonneg_nonneg)

lemma double_div_nonneg: "0 \<le> x \<Longrightarrow> 0 \<le> y \<Longrightarrow> 0 \<le> double_div x y"
  unfolding double_div_def by (intro round_to_double_nonneg divide_nonneg_nonneg)

lemma double_mul_le_int:
  "x * y \<le> of_int k \<Longrightarrow> \<bar>of_int k :: real\<bar> < 2 ^ 53 \<Longrightarrow> 0 \<le> x * y \<Longrightarrow> double_mul x y \<le> of_int k"
  unfolding double_mul_def by (rule round_to_double_le_int)

lemma double_add_of_int:
  "x + y = of_int k \<Longrightarrow> \<bar>of_int k :: real\<bar> < 2 ^ 53 \<Longrightarrow> double_add x y = of_int k"
  unfolding double_add_def by (simp only: round_to_double_of_int)

lemma double_mul_of_int:
  "x * y = of_int k \<Longrightarrow> \<bar>of_int k :: real\<bar> < 2 ^ 53 \<Longrightarrow> double_mul x y = of_int k"
  unfolding double_mul_def by (simp only: round_to_double_of_int)

section \<open>Facts about the band scale\<close>

lemma round_to_double_le_one:
  assumes "0 \<le> x" and "x \<le> 1"
  shows "round_to_double x \<le> 1"
  using round_to_double_le_int [of x 1] assms by simp

lemma band_le_step:
  fixes S :: int
  assumes "0 \<le> S" and "\<bar>real_of_int S\<bar> < 2 ^ 53" and "0 \<le> q" and "q \<le> 1"
  shows "Math_round (double_mul (of_int S) q) \<le> of_int S"
proof -
  have s0: "0 \<le> real_of_int S" using assms(1) by simp
  have "real_of_int S * q \<le> real_of_int S * 1" using assms(4) s0 by (rule mult_left_mono)
  then have le: "real_of_int S * q \<le> of_int S" by simp
  have nn: "0 \<le> real_of_int S * q" using s0 assms(3) by (rule mult_nonneg_nonneg)
  have "double_mul (of_int S) q \<le> of_int S"
    using le assms(2) nn by (rule double_mul_le_int)
  then have "\<lfloor>double_mul (of_int S) q + 1 / 2\<rfloor> \<le> S"
    by (simp add: floor_le_iff)
  then show ?thesis by (simp add: Math_round_def)
qed

lemma band_position_exact:
  fixes S R :: int
  assumes "0 \<le> S" and "\<bar>real_of_int R\<bar> + real_of_int S * real n < 2 ^ 53" and "k < n"
  shows "double_add (double_add 0 (of_int R)) (double_mul (of_int S) (real k)) =
           of_int R + of_int S * real k"
proof -
  have s0: "0 \<le> real_of_int S" using assms(1) by simp
  have kn: "real k \<le> real n" using assms(3) by simp
  have skn: "real_of_int S * real k \<le> real_of_int S * real n"
    using kn s0 by (rule mult_left_mono)
  have sk0: "0 \<le> real_of_int S * real k" using s0 by simp
  have sn0: "0 \<le> real_of_int S * real n" using s0 by simp
  have bR: "\<bar>real_of_int R\<bar> < 2 ^ 53" using assms(2) sn0 by linarith
  have first: "double_add 0 (of_int R) = of_int R"
    using bR by (intro double_add_of_int) simp_all
  have e1: "real_of_int S * real k = of_int (S * int k)" by simp
  have b1: "\<bar>real_of_int (S * int k)\<bar> < 2 ^ 53"
    using skn sk0 assms(2) unfolding e1 [symmetric] by linarith
  have m: "double_mul (of_int S) (real k) = of_int (S * int k)"
    using e1 b1 by (rule double_mul_of_int)
  have e2: "real_of_int R + real_of_int (S * int k) = of_int (R + S * int k)" by simp
  have b2: "\<bar>real_of_int (R + S * int k)\<bar> < 2 ^ 53"
    using skn sk0 assms(2) unfolding e2 [symmetric] e1 [symmetric] by linarith
  have "double_add (of_int R) (of_int (S * int k)) = of_int (R + S * int k)"
    using e2 b2 by (rule double_add_of_int)
  then show ?thesis by (simp only: first m) simp
qed

lemma rangeBand_nonneg:
  assumes "0 \<le> p" and "p \<le> 1" and "dmn \<noteq> []"
  shows "0 \<le> rangeBand_os (rangeRoundBands dmn x p)"
proof -
  let ?p = "round_to_double p"
  let ?n = "real (length dmn)"
  have p0: "0 \<le> ?p" using assms(1) by (rule round_to_double_nonneg)
  have p1: "?p \<le> 1" using assms(1,2) by (rule round_to_double_le_one)
  have n1: "1 \<le> ?n" using assms(3) by (cases dmn) simp_all
  have a: "0 \<le> double_sub ?n ?p"
    unfolding double_sub_def using p1 n1 by (intro round_to_double_nonneg) simp
  have b: "0 \<le> double_mul 2 ?p"
    unfolding double_mul_def using p0 by (intro round_to_double_nonneg) simp
  have d: "0 \<le> double_add (double_sub ?n ?p) (double_mul 2 ?p)"
    unfolding double_add_def using a b by (intro round_to_double_nonneg) simp
  have q: "0 \<le> double_sub 1 ?p"
    unfolding double_sub_def using p1 by (intro round_to_double_nonneg) simp
  have step: "0 \<le> Math_floor (double_div (double_sub hi lo)
      (double_add (double_sub ?n ?p) (double_mul 2 ?p)))" if "lo \<le> hi" for lo hi
  proof -
    have "0 \<le> double_sub hi lo"
      unfolding double_sub_def using that by (intro round_to_double_nonneg) simp
    then have "0 \<le> double_div (double_sub hi lo)
        (double_add (double_sub ?n ?p) (double_mul 2 ?p))"
      unfolding double_div_def using d by (intro round_to_double_nonneg divide_nonneg_nonneg)
    then show ?thesis by (rule Math_floor_nonneg)
  qed
  have band: "0 \<le> Math_round (double_mul s (double_sub 1 ?p))" if "0 \<le> s" for s
    unfolding double_mul_def using that q
    by (intro Math_round_nonneg round_to_double_nonneg mult_nonneg_nonneg)
  show ?thesis
  proof (cases "round_to_double (snd x) < round_to_double (fst x)")
    case True
    then have "round_to_double (snd x) \<le> round_to_double (fst x)" by simp
    then show ?thesis using True by (simp add: rangeRoundBands_def Let_def band step)
  next
    case False
    then have "round_to_double (fst x) \<le> round_to_double (snd x)" by simp
    then show ?thesis using False by (simp add: rangeRoundBands_def Let_def band step)
  qed
qed

lemma rangeRoundBands_forward:
  assumes "0 \<le> W"
  shows "rangeRoundBands dmn (0, W) p =
    \<lparr> domain_os = dmn,
      range_os = steps (length dmn)
        (double_add 0 (Math_round (double_div
           (double_sub (double_sub (round_to_double W) 0)
              (double_mul (double_sub (real (length dmn)) (round_to_double p))
                 (Math_floor (double_div (double_sub (round_to_double W) 0)
                    (double_add (double_sub (real (length dmn)) (round_to_double p))
                       (double_mul 2 (round_to_double p)))))))
           2)))
        (Math_floor (double_div (double_sub (round_to_double W) 0)
           (double_add (double_sub (real (length dmn)) (round_to_double p))
              (double_mul 2 (round_to_double p))))),
      rangeBand_os = Math_round (double_mul
        (Math_floor (double_div (double_sub (round_to_double W) 0)
           (double_add (double_sub (real (length dmn)) (round_to_double p))
              (double_mul 2 (round_to_double p)))))
        (double_sub 1 (round_to_double p))) \<rparr>"
proof -
  have "\<not> round_to_double W < 0"
    using round_to_double_nonneg [OF assms] by simp
  then show ?thesis
    by (simp add: rangeRoundBands_def Let_def round_to_double_zero)
qed

lemma ordinal_scale_nth:
  assumes "distinct dmn" and "i < length dmn" and "length rg = length dmn"
  shows "ordinal_scale \<lparr> domain_os = dmn, range_os = rg, rangeBand_os = b \<rparr> (dmn ! i) = Some (rg ! i)"
proof -
  have "rg \<noteq> []" using assms by auto
  then show ?thesis using assms by (simp add: ordinal_scale_def index_get_nth)
qed

section \<open>The arithmetic of the band scale on the embedded data set, evaluated\<close>

lemma round_to_double_value_1:
  "round_to_double (1 / 10) = 3602879701896397 / 36028797018963968"
  by (rule round_to_double_eqI [where e = "- 4"])
     (simp_all add: pow2_def round_half_even_def Let_def)

lemma round_to_double_value_2:
  "round_to_double (212569902411887411 / 36028797018963968) = 3321404725185741 / 562949953421312"
  by (rule round_to_double_eqI [where e = 2])
     (simp_all add: pow2_def round_half_even_def Let_def)

lemma round_to_double_value_3:
  "round_to_double (3602879701896397 / 18014398509481984) = 3602879701896397 / 18014398509481984"
  by (rule round_to_double_eqI [where e = "- 3"])
     (simp_all add: pow2_def round_half_even_def Let_def)

lemma round_to_double_value_4:
  "round_to_double (109887830907840109 / 18014398509481984) = 6867989431740007 / 1125899906842624"
  by (rule round_to_double_eqI [where e = 2])
     (simp_all add: pow2_def round_half_even_def Let_def)

lemma round_to_double_value_5:
  "round_to_double (399694466929131520 / 6867989431740007) = 8190460387892039 / 140737488355328"
  by (rule round_to_double_eqI [where e = 5])
     (simp_all add: pow2_def round_half_even_def Let_def)

lemma round_to_double_value_6:
  "round_to_double (96320737030386489 / 281474976710656) = 1505011516099789 / 4398046511104"
  by (rule round_to_double_eqI [where e = 8])
     (simp_all add: pow2_def round_half_even_def Let_def)

lemma round_to_double_value_7:
  "round_to_double (56294995342131 / 4398046511104) = 56294995342131 / 4398046511104"
  by (rule round_to_double_eqI [where e = 3])
     (simp_all add: pow2_def round_half_even_def Let_def)

lemma round_to_double_value_8:
  "round_to_double (56294995342131 / 8796093022208) = 56294995342131 / 8796093022208"
  by (rule round_to_double_eqI [where e = 2])
     (simp_all add: pow2_def round_half_even_def Let_def)

lemma round_to_double_value_9:
  "round_to_double (32425917317067571 / 36028797018963968) = 8106479329266893 / 9007199254740992"
  by (rule round_to_double_eqI [where e = "- 1"])
     (simp_all add: pow2_def round_half_even_def Let_def)

lemma round_to_double_value_10:
  "round_to_double (235087900548739897 / 4503599627370496) = 3673248446074061 / 70368744177664"
  by (rule round_to_double_eqI [where e = 5])
     (simp_all add: pow2_def round_half_even_def Let_def)

lemma round_to_double_value_11:
  "round_to_double (39406496739491840 / 6867989431740007) = 1615020358175895 / 281474976710656"
  by (rule round_to_double_eqI [where e = 2])
     (simp_all add: pow2_def round_half_even_def Let_def)

lemma round_to_double_value_12:
  "round_to_double (16607023625928705 / 562949953421312) = 59 / 2"
  by (rule round_to_double_eqI [where e = 4])
     (simp_all add: pow2_def round_half_even_def Let_def)

lemma round_to_double_value_13:
  "round_to_double (11 / 2) = 11 / 2"
  by (rule round_to_double_eqI [where e = 2])
     (simp_all add: pow2_def round_half_even_def Let_def)

lemma round_to_double_value_14:
  "round_to_double (11 / 4) = 11 / 4"
  by (rule round_to_double_eqI [where e = 1])
     (simp_all add: pow2_def round_half_even_def Let_def)

lemma round_to_double_value_15:
  "round_to_double (40532396646334465 / 9007199254740992) = 9 / 2"
  by (rule round_to_double_eqI [where e = 2])
     (simp_all add: pow2_def round_half_even_def Let_def)

lemma round_to_double_value_16:
  "round_to_double (206039682952200192 / 6867989431740007) = 8444249301319679 / 281474976710656"
  by (rule round_to_double_eqI [where e = 4])
     (simp_all add: pow2_def round_half_even_def Let_def)

lemma round_to_double_value_17:
  "round_to_double (96320737030386489 / 562949953421312) = 1505011516099789 / 8796093022208"
  by (rule round_to_double_eqI [where e = 7])
     (simp_all add: pow2_def round_half_even_def Let_def)

lemma round_to_double_value_18:
  "round_to_double (104673506964275 / 8796093022208) = 104673506964275 / 8796093022208"
  by (rule round_to_double_eqI [where e = 3])
     (simp_all add: pow2_def round_half_even_def Let_def)

lemma round_to_double_value_19:
  "round_to_double (104673506964275 / 17592186044416) = 104673506964275 / 17592186044416"
  by (rule round_to_double_eqI [where e = 2])
     (simp_all add: pow2_def round_half_even_def Let_def)

lemma round_to_double_value_20:
  "round_to_double (235087900548739897 / 9007199254740992) = 3673248446074061 / 140737488355328"
  by (rule round_to_double_eqI [where e = 4])
     (simp_all add: pow2_def round_half_even_def Let_def)

lemma xScale_355:
  "rangeRoundBands [''Total'', ''effect1'', ''effect2'', ''d'', ''e'', ''Total G''] (0, 355) (1 / 10) =
     \<lparr> domain_os = [''Total'', ''effect1'', ''effect2'', ''d'', ''e'', ''Total G''],
       range_os = [6, 64, 122, 180, 238, 296], rangeBand_os = 52 \<rparr>"
  by (simp add: rangeRoundBands_def steps_def Let_def upt_rec Math_floor_def Math_round_def
        double_add_def double_sub_def double_mul_def double_div_def
        round_to_double_zero round_to_double_one round_to_double_numeral
        round_to_double_neg_numeral
        round_to_double_value_1 round_to_double_value_2 round_to_double_value_3 round_to_double_value_4 round_to_double_value_5 round_to_double_value_6 round_to_double_value_7 round_to_double_value_8 round_to_double_value_9 round_to_double_value_10 round_to_double_value_11 round_to_double_value_12 round_to_double_value_13 round_to_double_value_14 round_to_double_value_15 round_to_double_value_16 round_to_double_value_17 round_to_double_value_18 round_to_double_value_19 round_to_double_value_20)

lemma xScale_minus_35:
  "rangeRoundBands [''Total'', ''effect1'', ''effect2'', ''d'', ''e'', ''Total G''] (0, - 35) (1 / 10) =
     \<lparr> domain_os = [''Total'', ''effect1'', ''effect2'', ''d'', ''e'', ''Total G''],
       range_os = [- 7, - 12, - 17, - 22, - 27, - 32], rangeBand_os = 5 \<rparr>"
  by (simp add: rangeRoundBands_def steps_def Let_def upt_rec Math_floor_def Math_round_def
        double_add_def double_sub_def double_mul_def double_div_def
        round_to_double_zero round_to_double_one round_to_double_numeral
        round_to_double_neg_numeral
        round_to_double_value_1 round_to_double_value_2 round_to_double_value_3 round_to_double_value_4 round_to_double_value_5 round_to_double_value_6 round_to_double_value_7 round_to_double_value_8 round_to_double_value_9 round_to_double_value_10 round_to_double_value_11 round_to_double_value_12 round_to_double_value_13 round_to_double_value_14 round_to_double_value_15 round_to_double_value_16 round_to_double_value_17 round_to_double_value_18 round_to_double_value_19 round_to_double_value_20)

lemma xScale_183:
  "rangeRoundBands [''Total'', ''effect1'', ''effect2'', ''d'', ''e'', ''Total G''] (0, 183) (1 / 10) =
     \<lparr> domain_os = [''Total'', ''effect1'', ''effect2'', ''d'', ''e'', ''Total G''],
       range_os = [6, 35, 64, 93, 122, 151], rangeBand_os = 26 \<rparr>"
  by (simp add: rangeRoundBands_def steps_def Let_def upt_rec Math_floor_def Math_round_def
        double_add_def double_sub_def double_mul_def double_div_def
        round_to_double_zero round_to_double_one round_to_double_numeral
        round_to_double_neg_numeral
        round_to_double_value_1 round_to_double_value_2 round_to_double_value_3 round_to_double_value_4 round_to_double_value_5 round_to_double_value_6 round_to_double_value_7 round_to_double_value_8 round_to_double_value_9 round_to_double_value_10 round_to_double_value_11 round_to_double_value_12 round_to_double_value_13 round_to_double_value_14 round_to_double_value_15 round_to_double_value_16 round_to_double_value_17 round_to_double_value_18 round_to_double_value_19 round_to_double_value_20)

section \<open>The update on the embedded data set, evaluated\<close>

lemma precalculate_testData:
  "precalculate 0 0 testData =
     [ \<lparr> value_dp = 100, category = ''Total'', start = 0, end_dp = 100, class_dp = ''positive'' \<rparr>,
       \<lparr> value_dp = 60, category = ''effect1'', start = 100, end_dp = 160, class_dp = ''positive'' \<rparr>,
       \<lparr> value_dp = - 20, category = ''effect2'', start = 160, end_dp = 140, class_dp = ''negative'' \<rparr>,
       \<lparr> value_dp = - 10, category = ''d'', start = 140, end_dp = 130, class_dp = ''negative'' \<rparr>,
       \<lparr> value_dp = 30, category = ''e'', start = 130, end_dp = 160, class_dp = ''positive'' \<rparr>,
       \<lparr> value_dp = 160, category = ''Total G'', start = 0, end_dp = 160, class_dp = ''positive'' \<rparr> ]"
  by (simp add: precalculate.simps loop_body_def Let_def testData_def)

lemma dataMax_testData: "d3_max (map value_dp testData) = Some 160"
  by (simp add: testData_def)

lemma ordinal_domain_testData:
  "ordinal_domain (map category testData) = [''Total'', ''effect1'', ''effect2'', ''d'', ''e'', ''Total G'']"
  by (simp add: ordinal_domain_def testData_def)

lemma plot_update_400_300:
  "plotWidth (update options_400_300) = 355 \<and> plotHeight (update options_400_300) = 265"
  by (simp add: options_400_300_def update_def update_with_def Let_def Config_def)

lemma bars_update_400_300:
  "bars (update options_400_300) =
     [ \<lparr>rect_width = 52, rect_height = Some (1325 / 8), rect_y = Some (795 / 8), rect_x = Some 6,
         rect_transform = (45, 10)\<rparr>,
       \<lparr>rect_width = 52, rect_height = Some (795 / 8), rect_y = Some 0, rect_x = Some 64,
         rect_transform = (45, 10)\<rparr>,
       \<lparr>rect_width = 52, rect_height = Some (265 / 8), rect_y = Some 0, rect_x = Some 122,
         rect_transform = (45, 10)\<rparr>,
       \<lparr>rect_width = 52, rect_height = Some (265 / 16), rect_y = Some (265 / 8), rect_x = Some 180,
         rect_transform = (45, 10)\<rparr>,
       \<lparr>rect_width = 52, rect_height = Some (795 / 16), rect_y = Some 0, rect_x = Some 238,
         rect_transform = (45, 10)\<rparr>,
       \<lparr>rect_width = 52, rect_height = Some 265, rect_y = Some 0, rect_x = Some 296,
         rect_transform = (45, 10)\<rparr> ]"
  by (simp add: options_400_300_def update_def update_with_def Let_def precalculate_testData dataMax_testData
        ordinal_domain_testData Config_def xScale_355 ordinal_scale_def
        d3_scale_linear_def d3_interpolateNumber_def d3_uninterpolateNumber_def)

lemma bars_update_10_10:
  "bars (update options_10_10) =
     [ \<lparr>rect_width = 5, rect_height = Some (- (125 / 8)), rect_y = Some (- (75 / 8)), rect_x = Some (- 7),
         rect_transform = (45, 10)\<rparr>,
       \<lparr>rect_width = 5, rect_height = Some (- (75 / 8)), rect_y = Some 0, rect_x = Some (- 12),
         rect_transform = (45, 10)\<rparr>,
       \<lparr>rect_width = 5, rect_height = Some (- (25 / 8)), rect_y = Some 0, rect_x = Some (- 17),
         rect_transform = (45, 10)\<rparr>,
       \<lparr>rect_width = 5, rect_height = Some (- (25 / 16)), rect_y = Some (- (25 / 8)), rect_x = Some (- 22),
         rect_transform = (45, 10)\<rparr>,
       \<lparr>rect_width = 5, rect_height = Some (- (75 / 16)), rect_y = Some 0, rect_x = Some (- 27),
         rect_transform = (45, 10)\<rparr>,
       \<lparr>rect_width = 5, rect_height = Some (- 25), rect_y = Some 0, rect_x = Some (- 32),
         rect_transform = (45, 10)\<rparr> ]"
  by (simp add: options_10_10_def update_def update_with_def Let_def precalculate_testData dataMax_testData
        ordinal_domain_testData Config_def xScale_minus_35 ordinal_scale_def
        d3_scale_linear_def d3_interpolateNumber_def d3_uninterpolateNumber_def)

section \<open>The two loops agree where the additions are exact\<close>

lemma loop_body_double_exact:
  assumes "i < length dps" and "double_add c (value_dp (dps ! i)) = c + value_dp (dps ! i)"
  shows "loop_body_double i c dps = loop_body i c dps"
  using assms by (simp add: loop_body_double_def loop_body_def Let_def)

lemma loop_body_double_last:
  assumes "i < length dps" and "i = length dps - 1"
  shows "snd (loop_body_double i c dps) = snd (loop_body i c dps)"
  using assms by (simp add: loop_body_double_def loop_body_def Let_def)

lemma length_loop_body_double: "length (snd (loop_body_double i c dps)) = length dps"
  by (simp add: loop_body_double_def Let_def)

lemma precalculate_double_exact:
  "sums_exact c (map value_dp (drop i dps)) \<Longrightarrow> precalculate_double i c dps = precalculate i c dps"
proof (induction i c dps rule: precalculate_double.induct)
  case (1 i c dps)
  show ?case
  proof (cases "i < length dps")
    case False
    then show ?thesis
      by (subst precalculate_double.simps, subst precalculate.simps) simp
  next
    case True
    let ?cd = "fst (loop_body_double i c dps)" and ?dd = "snd (loop_body_double i c dps)"
    let ?c1 = "fst (loop_body i c dps)" and ?d1 = "snd (loop_body i c dps)"
    have unfd: "precalculate_double i c dps = precalculate_double (i + 1) ?cd ?dd"
      using True by (subst precalculate_double.simps) simp
    have unf: "precalculate i c dps = precalculate (i + 1) ?c1 ?d1"
      using True by (subst precalculate.simps) simp
    have drp: "drop i dps = dps ! i # drop (Suc i) dps"
      using True by (simp add: Cons_nth_drop_Suc)
    show ?thesis
    proof (cases "i = length dps - 1")
      case last: True
      have dd: "?dd = ?d1" using True last by (rule loop_body_double_last)
      have done1: "\<not> i + 1 < length ?d1" using True last by (simp add: loop_body_eq)
      have "precalculate_double (i + 1) ?cd ?d1 = ?d1"
        using done1 by (subst precalculate_double.simps) simp
      moreover have "precalculate (i + 1) ?c1 ?d1 = ?d1"
        using done1 by (subst precalculate.simps) simp
      ultimately show ?thesis by (simp only: unfd unf dd)
    next
      case notlast: False
      with True have more: "Suc i < length dps" by simp
      then have drp2: "drop (Suc i) dps = dps ! Suc i # drop (Suc (Suc i)) dps"
        by (simp add: Cons_nth_drop_Suc)
      have ex: "double_add c (value_dp (dps ! i)) = c + value_dp (dps ! i)"
        and rest: "sums_exact (c + value_dp (dps ! i)) (map value_dp (drop (Suc i) dps))"
        using "1.prems" by (simp_all add: drp drp2)
      have eq: "loop_body_double i c dps = loop_body i c dps"
        using True ex by (rule loop_body_double_exact)
      have c1: "?c1 = c + value_dp (dps ! i)" using True by (simp add: loop_body_eq)
      have d1: "drop (i + 1) ?d1 = drop (i + 1) dps"
        using True by (simp add: loop_body_eq drop_update_cancel)
      have "sums_exact ?cd (map value_dp (drop (i + 1) ?dd))"
        using rest by (simp only: eq c1 d1) simp
      then have "precalculate_double (i + 1) ?cd ?dd = precalculate (i + 1) ?cd ?dd"
        using True by (intro "1.IH")
      then show ?thesis by (simp only: unfd unf eq)
    qed
  qed
qed

lemma round_to_double_two_53: "round_to_double 9007199254740992 = 9007199254740992"
  by (rule round_to_double_eqI [where e = 53])
     (simp_all add: pow2_def round_half_even_def Let_def)

lemma round_to_double_two_53_plus_1: "round_to_double 9007199254740993 = 9007199254740992"
  by (rule round_to_double_eqI [where e = 53])
     (simp_all add: pow2_def round_half_even_def Let_def)

lemma precalculate_double_big_then_one:
  "precalculate_double 0 0 big_then_one =
     [ \<lparr> value_dp = 9007199254740992, category = ''a'', start = 0, end_dp = 9007199254740992,
         class_dp = ''positive'' \<rparr>,
       \<lparr> value_dp = 1, category = ''b'', start = 9007199254740992, end_dp = 9007199254740992,
         class_dp = ''positive'' \<rparr>,
       \<lparr> value_dp = 0, category = ''c'', start = 0, end_dp = 0, class_dp = ''positive'' \<rparr> ]"
  by (simp add: precalculate_double.simps loop_body_double_def Let_def big_then_one_def
        double_add_def round_to_double_two_53 round_to_double_two_53_plus_1)

lemma sums_exact_testData: "sums_exact 0 (map value_dp testData)"
  by (simp add: testData_def double_add_def round_to_double_numeral)

section \<open>The claims\<close>



text \<open>
  Claim C2. For a non-empty sequence, after the loop the last point has \<open>start = 0\<close> and
  \<open>end\<close> equal to its own value, whatever the running total before it; a sequence of
  one point is the case where the first point is the last.
\<close>

theorem final_point_anchored:
  assumes "data \<noteq> []"
  shows "let pts = dataPoints (viewModel (update_with cfg data options)) in
           length pts = length data \<and>
           start (last pts) = 0 \<and> end_dp (last pts) = value_dp (last pts) \<and>
           value_dp (last pts) = value_dp (last data)"
proof -
  let ?pts = "precalculate 0 0 data"
  have len: "length ?pts = length data" by (rule length_precalculate)
  with assms have ne: "?pts \<noteq> []" by auto
  have "last ?pts = ?pts ! (length data - 1)" using ne len by (simp add: last_conv_nth)
  moreover have "last data = data ! (length data - 1)" using assms by (simp add: last_conv_nth)
  moreover have "length data - 1 < length data" using assms by simp
  ultimately show ?thesis
    by (simp add: dataPoints_update_with precalculate_nth len)
qed

theorem final_point_anchored_witness:
  "single_point \<noteq> [] \<and>
   (let pts = dataPoints (viewModel (update_with Config single_point options_400_300)) in
      length pts = 1 \<and> start (last pts) = 0 \<and> end_dp (last pts) = 50) \<and>
   testData \<noteq> [] \<and>
   (let pts = dataPoints (viewModel (update options_400_300)) in
      length pts = 6 \<and> start (last pts) = 0 \<and> end_dp (last pts) = 160 \<and>
      start (pts ! 4) = 130 \<and> end_dp (pts ! 4) = 160)"
  using final_point_anchored [of single_point Config options_400_300]
    final_point_anchored [of testData Config options_400_300]
  by (simp add: Let_def single_point_def update_def dataPoints_update_with precalculate_testData)
     (simp add: testData_def)

text \<open>
  Claim C3, as the code has it. \<open>dataMax\<close> is the greatest raw value of the points (not
  of their starts or ends) when there is a point, and \<open>dataMin\<close> is always 0. For the
  empty sequence \<^verbatim>\<open>d3.max\<close> returns \<^verbatim>\<open>undefined\<close>, so \<open>dataMax\<close> is undefined there and
  not 0; nothing is raised.
\<close>

theorem dataMax_of_values:
  "dataMax (viewModel (update_with cfg data options)) =
     (if data = [] then None else Some (Max (set (map value_dp data)))) \<and>
   dataMin (viewModel (update_with cfg data options)) = 0"
  by (simp add: update_with_def Let_def d3_max_Max)

theorem dataMax_of_values_witness:
  "testData \<noteq> [] \<and>
   dataMax (viewModel (update options_400_300)) = Some 160 \<and>
   dataMin (viewModel (update options_400_300)) = 0"
  using dataMax_of_values [of Config testData options_400_300]
  by (simp add: update_def) (simp add: testData_def)

text \<open>
  Claim C3 as stated fails on the empty sequence: \<open>dataMax\<close> is not 0 there.
\<close>

theorem dataMax_empty_counterexample:
  "dataMax (viewModel (update_with Config [] options_400_300)) \<noteq> Some 0"
  by (simp add: update_with_def Let_def)

text \<open>
  Claim C4, as the code has it. The plot dimensions are not clamped: the plot height is
  negative exactly when the viewport is lower than the top and bottom margins together,
  the plot width exactly when the viewport is narrower than the left margin. No bar has
  a negative width (the band scale orders a reversed range before it divides it), and
  every bar of the embedded data set has a negative height exactly when the plot height
  is negative.
\<close>

theorem unclamped_plot_dimensions:
  "(plotHeight (update options) < 0 \<longleftrightarrow> height (viewport options) < 10 + 25) \<and>
   (plotWidth (update options) < 0 \<longleftrightarrow> width (viewport options) < 45) \<and>
   (\<forall>b \<in> set (bars (update options)).
      0 \<le> rect_width b \<and>
      (\<exists>h. rect_height b = Some h \<and> (h < 0 \<longleftrightarrow> plotHeight (update options) < 0)))"
proof -
  let ?H = "height (viewport options) - 35"
  have w: "0 \<le> rangeBand_os (rangeRoundBands (ordinal_domain (map category testData))
              (0, width (viewport options) - 45) (1 / 10))"
    by (rule rangeBand_nonneg) (simp_all add: ordinal_domain_testData)
  have h: "(?H < d3_scale_linear (0, 160) (?H, 0) v) = (height (viewport options) < 35)"
    if "0 < v" for v
  proof -
    have eq: "d3_scale_linear (0, 160) (?H, 0) v = ?H - ?H * (v / 160)"
      by (simp add: d3_scale_linear_def d3_interpolateNumber_def d3_uninterpolateNumber_def
            algebra_simps)
    have "(?H * (v / 160) < 0) = (?H < 0)"
      using that by (simp add: mult_less_0_iff)
    then show ?thesis unfolding eq by auto
  qed
  have dims: "plotHeight (update options) = ?H" "plotWidth (update options) = width (viewport options) - 45"
    by (simp_all add: update_def update_with_def Let_def Config_def)
  have bs: "\<forall>b \<in> set (bars (update options)).
      0 \<le> rect_width b \<and> (\<exists>h. rect_height b = Some h \<and> (h < 0 \<longleftrightarrow> ?H < 0))"
    using w
    by (simp add: update_def update_with_def Let_def precalculate_testData dataMax_testData
          Config_def h)
  show ?thesis using bs by (simp add: dims)
qed

theorem unclamped_plot_dimensions_witness:
  "bars (update options_400_300) ! 0 \<in> set (bars (update options_400_300)) \<and>
   0 \<le> rect_width (bars (update options_400_300) ! 0) \<and>
   rect_height (bars (update options_400_300) ! 0) = Some (1325 / 8) \<and>
   \<not> plotHeight (update options_400_300) < 0"
proof -
  have m: "bars (update options_400_300) ! 0 \<in> set (bars (update options_400_300))"
    by (simp add: bars_update_400_300)
  from unclamped_plot_dimensions [of options_400_300] m
  have "0 \<le> rect_width (bars (update options_400_300) ! 0)" by blast
  then show ?thesis using m by (simp add: bars_update_400_300 plot_update_400_300)
qed

text \<open>
  Claim C4 as stated fails for a viewport of 10 by 10: both plot dimensions are negative
  and the bars have negative heights.
\<close>

theorem clamping_counterexample:
  "plotHeight (update options_10_10) = - 25 \<and> plotWidth (update options_10_10) = - 35 \<and>
   rect_height (bars (update options_10_10) ! 0) = Some (- (125 / 8)) \<and>
   rect_height (bars (update options_10_10) ! 5) = Some (- 25)"
  by (simp add: bars_update_10_10) (simp add: options_10_10_def update_def update_with_def Let_def Config_def)

text \<open>
  Claim C5. For every data point the rectangle of its bar has the band width of the
  category scale as its width, the plot height minus the value scale of \<open>|start - end|\<close>
  as its height, the value scale of \<open>max start end\<close> as its \<open>y\<close>, the category scale of
  its category as its \<open>x\<close>, and the translation by the left and top margins as its
  transform. There is one rectangle per data point, in the order of the data.
\<close>

theorem bar_geometry:
  assumes "i < length data"
  shows "let r = update_with cfg data options;
             d = dataPoints (viewModel r) ! i;
             b = bars r ! i;
             valueScale = (\<lambda>v. map_option
                 (\<lambda>m. d3_scale_linear (dataMin (viewModel r), m) (plotHeight r, 0) v)
                 (dataMax (viewModel r)));
             categoryScale = rangeRoundBands (ordinal_domain (map category data))
                 (0, plotWidth r) (xScalePadding cfg)
         in length (bars r) = length data \<and>
            rect_width b = rangeBand_os categoryScale \<and>
            rect_height b = map_option (\<lambda>y. plotHeight r - y) (valueScale \<bar>start d - end_dp d\<bar>) \<and>
            rect_y b = valueScale (max (start d) (end_dp d)) \<and>
            rect_x b = ordinal_scale categoryScale (category d) \<and>
            rect_transform b = (left_margin (margins cfg), top_margin (margins cfg))"
proof -
  have il: "i < length (precalculate 0 0 data)" using assms by (simp add: length_precalculate)
  show ?thesis
    using il by (simp add: update_with_def Let_def length_precalculate)
qed

theorem bar_geometry_witness:
  "(4::nat) < length testData \<and>
   length (bars (update_with Config testData options_400_300)) = 6 \<and>
   rect_width (bars (update_with Config testData options_400_300) ! 4) = 52 \<and>
   rect_height (bars (update_with Config testData options_400_300) ! 4) = Some (795 / 16) \<and>
   rect_y (bars (update_with Config testData options_400_300) ! 4) = Some 0 \<and>
   rect_x (bars (update_with Config testData options_400_300) ! 4) = Some 238 \<and>
   rect_transform (bars (update_with Config testData options_400_300) ! 4) = (45, 10)"
proof -
  have h: "(4::nat) < length testData" by (simp add: testData_def)
  from bar_geometry [OF h, of Config options_400_300]
  have "length (bars (update_with Config testData options_400_300)) = length testData"
    by (simp add: Let_def)
  then show ?thesis using h bars_update_400_300 by (simp add: update_def testData_def)
qed

text \<open>
  Claim C6. The plot height is the viewport height minus the top and bottom margins, the
  plot width is the viewport width minus the left margin; the right margin has no
  influence on the width. For the static configuration these are the viewport height
  minus 35 and the viewport width minus 45.
\<close>

theorem plot_area:
  "plotHeight (update_with cfg data options) =
     height (viewport options) - top_margin (margins cfg) - bottom_margin (margins cfg) \<and>
   plotWidth (update_with cfg data options) = width (viewport options) - left_margin (margins cfg) \<and>
   plotWidth (update_with (cfg\<lparr>margins := (margins cfg)\<lparr>right_margin := r\<rparr>\<rparr>) data options) =
     plotWidth (update_with cfg data options) \<and>
   plotHeight (update options) = height (viewport options) - 10 - 25 \<and>
   plotWidth (update options) = width (viewport options) - 45"
  by (simp add: update_def update_with_def Let_def Config_def)

theorem plot_area_witness:
  "plotHeight (update options_400_300) = 300 - 10 - 25 \<and>
   plotWidth (update options_400_300) = 400 - 45 \<and>
   plotWidth (update_with (Config\<lparr>margins := (margins Config)\<lparr>right_margin := 20\<rparr>\<rparr>) testData options_400_300) =
     plotWidth (update_with Config testData options_400_300)"
  using plot_area [of Config testData options_400_300 20]
  by (simp add: options_400_300_def)

text \<open>
  Claim C7, as the code has it. Take a non-empty category sequence, a non-negative plot
  width \<open>W\<close> and a padding \<open>p\<close> between 0 and 1, and let \<open>n\<close> be the number of categories
  of the scale's domain (the distinct categories, in order),
  \<open>step = floor (W / (n - p + 2 * p))\<close>, \<open>band = round (step * (1 - p))\<close> and
  \<open>offset = round ((W - (n - p) * step) / 2)\<close>, each operation in double arithmetic as
  the library computes it. Every category has the band width \<open>band\<close>, which is not
  negative. As long as the positions stay among the integers that doubles represent
  exactly (\<open>|offset| + step * n < 2 ^ 53\<close>), \<open>band \<le> step\<close> and category number \<open>i\<close>
  starts at \<open>offset + step * i\<close>, so the intervals of two categories do not overlap, and
  neighbours are separated by a gap of \<open>step - band\<close>. Nothing is said of the gap as a
  multiple of the band width, nor of the bands filling the plot width.
\<close>

theorem band_layout:
  assumes "cats \<noteq> []" and "0 \<le> W" and "0 \<le> p" and "p \<le> 1"
    and "i < length (ordinal_domain cats)"
  shows "let dmn = ordinal_domain cats;
             n = real (length dmn);
             W_d = round_to_double W;
             p_d = round_to_double p;
             categoryScale = rangeRoundBands dmn (0, W) p;
             step = Math_floor (double_div (double_sub W_d 0)
                      (double_add (double_sub n p_d) (double_mul 2 p_d)));
             band = Math_round (double_mul step (double_sub 1 p_d));
             offset = Math_round (double_div
                        (double_sub (double_sub W_d 0) (double_mul (double_sub n p_d) step)) 2)
         in distinct dmn \<and> set dmn = set cats \<and>
            rangeBand_os categoryScale = band \<and> 0 \<le> band \<and> 0 \<le> step \<and>
            (\<bar>offset\<bar> + step * n < 2 ^ 53 \<longrightarrow>
               band \<le> step \<and>
               ordinal_scale categoryScale (dmn ! i) = Some (offset + step * real i) \<and>
               (\<forall>j. i < j \<and> j < length dmn \<longrightarrow>
                  ordinal_scale categoryScale (dmn ! j) = Some (offset + step * real j) \<and>
                  (offset + step * real i) + band \<le> offset + step * real j \<and>
                  (offset + step * real (i + 1)) - ((offset + step * real i) + band) = step - band))"
proof -
  let ?dmn = "ordinal_domain cats"
  let ?n = "real (length ?dmn)"
  let ?W = "round_to_double W"
  let ?p = "round_to_double p"
  let ?S = "\<lfloor>double_div (double_sub ?W 0) (double_add (double_sub ?n ?p) (double_mul 2 ?p))\<rfloor>"
  let ?step = "Math_floor (double_div (double_sub ?W 0)
                 (double_add (double_sub ?n ?p) (double_mul 2 ?p)))"
  let ?band = "Math_round (double_mul ?step (double_sub 1 ?p))"
  let ?R = "\<lfloor>double_div (double_sub (double_sub ?W 0) (double_mul (double_sub ?n ?p) ?step)) 2
              + 1 / 2\<rfloor>"
  let ?off = "Math_round (double_div
                (double_sub (double_sub ?W 0) (double_mul (double_sub ?n ?p) ?step)) 2)"
  let ?xs = "rangeRoundBands ?dmn (0, W) p"
  have stepS: "?step = of_int ?S" by (simp add: Math_floor_def)
  have offR: "?off = of_int ?R" by (simp add: Math_round_def)
  have dist: "distinct ?dmn" by (rule distinct_ordinal_domain)
  have sets: "set ?dmn = set cats" by (rule set_ordinal_domain)
  have ne: "?dmn \<noteq> []" using assms(5) by auto
  have n1: "1 \<le> ?n" using ne by (cases ?dmn) simp_all
  have p0: "0 \<le> ?p" using assms(3) by (rule round_to_double_nonneg)
  have p1: "?p \<le> 1" using assms(3,4) by (rule round_to_double_le_one)
  have W0: "0 \<le> ?W" using assms(2) by (rule round_to_double_nonneg)
  have q0: "0 \<le> double_sub 1 ?p" using p1 by (rule double_sub_nonneg)
  have q1: "double_sub 1 ?p \<le> 1"
    unfolding double_sub_def using p0 p1 by (intro round_to_double_le_one) simp_all
  have step0: "0 \<le> ?step"
  proof -
    have "?p \<le> ?n" using p1 n1 by simp
    then have a: "0 \<le> double_sub ?n ?p" by (rule double_sub_nonneg)
    have b: "0 \<le> double_mul 2 ?p" using p0 by (intro double_mul_nonneg) simp_all
    have d: "0 \<le> double_add (double_sub ?n ?p) (double_mul 2 ?p)"
      using a b by (rule double_add_nonneg)
    have "0 \<le> double_sub ?W 0" using W0 by (rule double_sub_nonneg)
    then have "0 \<le> double_div (double_sub ?W 0) (double_add (double_sub ?n ?p) (double_mul 2 ?p))"
      using d by (rule double_div_nonneg)
    then show ?thesis by (rule Math_floor_nonneg)
  qed
  have band0: "0 \<le> ?band"
    using step0 q0 by (intro Math_round_nonneg double_mul_nonneg)
  have scale: "?xs = \<lparr> domain_os = ?dmn,
      range_os = steps (length ?dmn) (double_add 0 ?off) ?step, rangeBand_os = ?band \<rparr>"
    using assms(2) by (rule rangeRoundBands_forward)
  have width: "rangeBand_os ?xs = ?band" by (simp add: scale)
  have exact: "?band \<le> ?step \<and>
      ordinal_scale ?xs (?dmn ! i) = Some (?off + ?step * real i) \<and>
      (\<forall>j. i < j \<and> j < length ?dmn \<longrightarrow>
         ordinal_scale ?xs (?dmn ! j) = Some (?off + ?step * real j) \<and>
         (?off + ?step * real i) + ?band \<le> ?off + ?step * real j \<and>
         (?off + ?step * real (i + 1)) - ((?off + ?step * real i) + ?band) = ?step - ?band)"
    if small: "\<bar>?off\<bar> + ?step * ?n < 2 ^ 53"
  proof -
    define S where "S = ?S"
    define R where "R = ?R"
    have stepS': "?step = of_int S" by (simp only: stepS S_def)
    have offR': "?off = of_int R" by (simp only: offR R_def)
    have S0: "0 \<le> S" using step0 unfolding stepS' by simp
    have "\<bar>real_of_int R\<bar> + ?step * real (length ?dmn) < 2 ^ 53"
      using small by (simp only: offR')
    then have small': "\<bar>real_of_int R\<bar> + real_of_int S * real (length ?dmn) < 2 ^ 53"
      by (simp only: stepS')
    have "real_of_int S * 1 \<le> real_of_int S * ?n"
      using n1 by (rule mult_left_mono) (use S0 in simp)
    then have Ssmall: "\<bar>real_of_int S\<bar> < 2 ^ 53" using small' S0 by simp
    have "Math_round (double_mul (of_int S) (double_sub 1 ?p)) \<le> of_int S"
      using S0 Ssmall q0 q1 by (rule band_le_step)
    then have bandle: "?band \<le> ?step" by (simp only: stepS' [symmetric])
    have x: "ordinal_scale ?xs (?dmn ! k) = Some (?off + ?step * real k)"
      if k: "k < length ?dmn" for k
    proof -
      have "ordinal_scale ?xs (?dmn ! k) =
          Some (steps (length ?dmn) (double_add 0 ?off) ?step ! k)"
        unfolding scale using dist k by (rule ordinal_scale_nth) (simp add: length_steps)
      also have "steps (length ?dmn) (double_add 0 ?off) ?step ! k =
          double_add (double_add 0 ?off) (double_mul ?step (real k))"
        using k by (rule steps_nth)
      also have "\<dots> = ?off + ?step * real k"
        using band_position_exact [OF S0 small' k]
        by (simp only: offR' [symmetric] stepS' [symmetric])
      finally show ?thesis .
    qed
    have mono: "?step * real i + ?band \<le> ?step * real j" if "i < j" for j
    proof -
      have "real i + 1 \<le> real j" using that by simp
      then have "?step * (real i + 1) \<le> ?step * real j" using step0 by (rule mult_left_mono)
      then show ?thesis using bandle by (simp add: algebra_simps)
    qed
    show ?thesis
      using bandle x [OF assms(5)] x mono by (auto simp: algebra_simps)
  qed
  show ?thesis
    unfolding Let_def using dist sets width band0 step0 exact by blast
qed

theorem band_layout_witness:
  "map category testData \<noteq> [] \<and> (0::real) \<le> 183 \<and>
   0 \<le> xScalePadding Config \<and> xScalePadding Config \<le> 1 \<and>
   (1::nat) < length (ordinal_domain (map category testData)) \<and>
   rangeBand_os (rangeRoundBands (ordinal_domain (map category testData)) (0, 183)
     (xScalePadding Config)) = 26 \<and>
   ordinal_scale (rangeRoundBands (ordinal_domain (map category testData)) (0, 183)
     (xScalePadding Config)) ''Total'' = Some 6 \<and>
   ordinal_scale (rangeRoundBands (ordinal_domain (map category testData)) (0, 183)
     (xScalePadding Config)) ''effect1'' = Some 35 \<and>
   (6::real) + 26 \<le> 35"
proof -
  have h1: "map category testData \<noteq> []" by (simp add: testData_def)
  have h2: "(0::real) \<le> 183" by simp
  have h3: "0 \<le> xScalePadding Config" and h4: "xScalePadding Config \<le> 1"
    by (simp_all add: Config_def)
  have h5: "(1::nat) < length (ordinal_domain (map category testData))"
    by (simp add: ordinal_domain_testData)
  have step: "Math_floor (double_div (double_sub (round_to_double 183) 0)
      (double_add (double_sub 6 (round_to_double (1 / 10)))
         (double_mul 2 (round_to_double (1 / 10))))) = 29"
    by (simp add: Math_floor_def double_add_def double_sub_def double_mul_def double_div_def
          round_to_double_numeral round_to_double_value_1 round_to_double_value_2
          round_to_double_value_3 round_to_double_value_4 round_to_double_value_16)
  have offset: "Math_round (double_div (double_sub (double_sub (round_to_double 183) 0)
      (double_mul (double_sub 6 (round_to_double (1 / 10))) 29)) 2) = 6"
    by (simp add: Math_round_def double_add_def double_sub_def double_mul_def double_div_def
          round_to_double_numeral round_to_double_value_1 round_to_double_value_2
          round_to_double_value_17 round_to_double_value_18 round_to_double_value_19)
  from band_layout [OF h1 h2 h3 h4 h5]
  have "ordinal_scale (rangeRoundBands (ordinal_domain (map category testData)) (0, 183)
      (xScalePadding Config)) ''effect1'' = Some 35"
    by (simp add: Let_def ordinal_domain_testData Config_def step offset)
  then show ?thesis
    using h1 h3 h4 h5
    by (simp add: ordinal_domain_testData Config_def xScale_183 ordinal_scale_def)
qed

text \<open>
  Claim C7 as stated fails on the embedded data set in a viewport 400 wide (plot width
  355): the bands are 52 wide and 58 apart, so the gap is 6 and not a tenth of 52; the
  first band starts at 6 and the last one ends at 348.
\<close>

theorem band_gaps_counterexample:
  "plotWidth (update options_400_300) = 355 \<and>
   rect_x (bars (update options_400_300) ! 0) = Some 6 \<and>
   rect_width (bars (update options_400_300) ! 0) = 52 \<and>
   rect_x (bars (update options_400_300) ! 1) = Some 64 \<and>
   (64::real) - (6 + 52) \<noteq> xScalePadding Config * 52 \<and>
   rect_x (bars (update options_400_300) ! 5) = Some 296 \<and>
   rect_width (bars (update options_400_300) ! 5) = 52 \<and>
   (296::real) + 52 \<noteq> 355"
  by (simp add: bars_update_400_300 plot_update_400_300) (simp add: Config_def)

text \<open>
  Claim C8. After the loop the class of every data point is \<open>positive\<close> exactly when its
  value is at least 0 (zero counts as positive) and \<open>negative\<close> otherwise.
\<close>

theorem sign_classification:
  assumes "i < length data"
  shows "let pts = dataPoints (viewModel (update_with cfg data options)) in
           (class_dp (pts ! i) = ''positive'' \<longleftrightarrow> value_dp (pts ! i) \<ge> 0) \<and>
           (class_dp (pts ! i) = ''negative'' \<longleftrightarrow> \<not> value_dp (pts ! i) \<ge> 0) \<and>
           value_dp (pts ! i) = value_dp (data ! i)"
  using assms by (simp add: dataPoints_update_with precalculate_nth)

theorem sign_classification_witness:
  "(2::nat) < length testData \<and>
   class_dp (dataPoints (viewModel (update options_400_300)) ! 2)
     = ''negative'' \<and>
   \<not> value_dp (dataPoints (viewModel (update options_400_300)) ! 2)
     \<ge> 0"
  using sign_classification [of 2 testData Config options_400_300]
  by (simp add: update_def dataPoints_update_with precalculate_testData) (simp add: testData_def)

text \<open>
  Claim C9. Two updates with the same viewport and different data views from the host
  leave the same view model and the same rectangles: \<^verbatim>\<open>update\<close> works on its embedded
  data set and never reads the data views.
\<close>

theorem update_ignores_dataViews:
  assumes "viewport o1 = viewport o2"
  shows "update o1 = update o2"
  using assms by (simp add: update_def update_with_def Let_def)

theorem update_ignores_dataViews_witness:
  "viewport options_400_300 = viewport options_with_data \<and>
   dataViews options_400_300 \<noteq> dataViews options_with_data \<and>
   update options_400_300 = update options_with_data"
  using update_ignores_dataViews [of options_400_300 options_with_data]
  by (simp add: options_400_300_def options_with_data_def)

text \<open>
  Claim C10, as the code has it. Where the additions of the running total are exact (as
  they are for the embedded data set, whose values are small integers), the loop leaves
  every point, the last one included, with \<open>end - start = value\<close>, hence
  \<open>|start - end| = |value|\<close>, and the height of its bar is the plot height minus the value
  scale of the magnitude of its own value. The loop in double arithmetic then computes
  the very data points of the view model.
\<close>

theorem end_minus_start_is_value_if_exact:
  assumes "sums_exact 0 (map value_dp data)" and "i < length data"
  shows "let r = update_with cfg data options; pts = precalculate_double 0 0 data in
           pts = dataPoints (viewModel r) \<and>
           end_dp (pts ! i) - start (pts ! i) = value_dp (pts ! i) \<and>
           \<bar>start (pts ! i) - end_dp (pts ! i)\<bar> = \<bar>value_dp (pts ! i)\<bar> \<and>
           value_dp (pts ! i) = value_dp (data ! i) \<and>
           rect_height (bars r ! i) =
             map_option (\<lambda>m. plotHeight r - d3_scale_linear (0, m) (plotHeight r, 0) \<bar>value_dp (data ! i)\<bar>)
               (dataMax (viewModel r))"
proof -
  let ?pts = "precalculate 0 0 data"
  have same: "precalculate_double 0 0 data = ?pts"
    using assms(1) by (intro precalculate_double_exact) simp
  have a: "end_dp (?pts ! i) - start (?pts ! i) = value_dp (data ! i)"
    using assms(2) by (simp add: precalculate_nth)
  then have b: "\<bar>start (?pts ! i) - end_dp (?pts ! i)\<bar> = \<bar>value_dp (data ! i)\<bar>"
    by (simp add: abs_minus_commute)
  have v: "value_dp (?pts ! i) = value_dp (data ! i)"
    using assms(2) by (simp add: precalculate_nth)
  have il: "i < length ?pts" using assms(2) by (simp add: length_precalculate)
  show ?thesis
    using a v il by (simp add: same update_with_def Let_def b option.map_comp comp_def)
qed

theorem end_minus_start_is_value_if_exact_witness:
  "sums_exact 0 (map value_dp testData) \<and> (3::nat) < length testData \<and>
   precalculate_double 0 0 testData = dataPoints (viewModel (update options_400_300)) \<and>
   end_dp (precalculate_double 0 0 testData ! 3) - start (precalculate_double 0 0 testData ! 3) = - 10 \<and>
   value_dp (precalculate_double 0 0 testData ! 3) = - 10 \<and>
   rect_height (bars (update options_400_300) ! 3) = Some (265 / 16)"
proof -
  have h: "(3::nat) < length testData" by (simp add: testData_def)
  from end_minus_start_is_value_if_exact [OF sums_exact_testData h, of Config options_400_300]
  have "precalculate_double 0 0 testData = dataPoints (viewModel (update options_400_300))"
    by (simp add: Let_def update_def)
  then show ?thesis
    using h sums_exact_testData
    by (simp add: update_def dataPoints_update_with precalculate_testData bars_update_400_300 [unfolded update_def])
qed

text \<open>
  Claim C10 as stated fails where an addition is rounded: after \<open>2 ^ 53\<close> the point of
  value 1 starts and ends at \<open>2 ^ 53\<close>, so that \<open>end - start\<close> is 0 and not 1.
\<close>

theorem end_minus_start_rounding_counterexample:
  "end_dp (precalculate_double 0 0 big_then_one ! 1) - start (precalculate_double 0 0 big_then_one ! 1) = 0 \<and>
   value_dp (precalculate_double 0 0 big_then_one ! 1) = 1 \<and>
   \<not> sums_exact 0 (map value_dp big_then_one)"
  by (simp add: precalculate_double_big_then_one)
     (simp add: big_then_one_def double_add_def round_to_double_two_53 round_to_double_two_53_plus_1)

end
